theory Spec2Isabelle
  imports Complex_Main
begin

section \<open>Python values, dictionaries and exceptions\<close>

text \<open>
  The service of \<^verbatim>\<open>app/services/rag_service.py\<close> passes dictionaries around whose values
  are integers, strings, floats, \<^verbatim>\<open>None\<close>, lists and nested dictionaries. A dictionary is an
  association list in insertion order; \<^verbatim>\<open>d.get(k, default)\<close> is \<open>dict_get\<close>.
\<close>

datatype pyval =
    PNone
  | PInt int
  | PFloat real
  | PStr string
  | PList "pyval list"
  | PDict "(string \<times> pyval) list"

type_synonym pydict = "(string \<times> pyval) list"

definition dict_get :: "pydict \<Rightarrow> string \<Rightarrow> pyval \<Rightarrow> pyval" where
  "dict_get d k dflt = (case map_of d k of None \<Rightarrow> dflt | Some v \<Rightarrow> v)"

text \<open>Truth value of a Python object, as tested by \<^verbatim>\<open>if x\<close>.\<close>

fun truthy :: "pyval \<Rightarrow> bool" where
  "truthy PNone = False"
| "truthy (PInt i) = (i \<noteq> 0)"
| "truthy (PFloat x) = (x \<noteq> 0)"
| "truthy (PStr s) = (s \<noteq> [])"
| "truthy (PList xs) = (xs \<noteq> [])"
| "truthy (PDict d) = (d \<noteq> [])"

text \<open>The exceptions that can reach the \<^verbatim>\<open>except Exception\<close> handlers of the service.\<close>

datatype error =
    KeyError string
  | TypeError string
  | ValueError string
  | StorageUnavailable string
  | EmbeddingUnavailable string
  | GenerationError string

text \<open>\<^verbatim>\<open>str(e)\<close>: the message; a \<^verbatim>\<open>KeyError\<close> prints its key in quotes.\<close>

fun str_error :: "error \<Rightarrow> string" where
  "str_error (KeyError k) = [CHR 0x27] @ k @ [CHR 0x27]"
| "str_error (TypeError m) = m"
| "str_error (ValueError m) = m"
| "str_error (StorageUnavailable m) = m"
| "str_error (EmbeddingUnavailable m) = m"
| "str_error (GenerationError m) = m"

section \<open>Identifiers\<close>

text \<open>
  \<^verbatim>\<open>str(uuid.uuid4())\<close> draws a random identifier. The generator is a counter of the draws
  made so far; the \<open>n\<close>-th draw yields \<open>uuid_str n\<close>, and different draws yield different
  strings (random UUIDs are taken never to collide).
\<close>

definition uuid_str :: "nat \<Rightarrow> string" where
  "uuid_str n = ''uuid-'' @ replicate n (CHR ''i'')"

section \<open>The vector store\<close>

text \<open>
  A LangChain \<^verbatim>\<open>Document\<close> has a text and a metadata dictionary. The Chroma collection
  behind \<^verbatim>\<open>self.vectorstore\<close> keeps the documents under keys of its own.

  The store is an external collaborator of the service (a library, not code of the
  repository); the definitions of this section are its contract as the service uses it.
  Its state holds the stored entries, whether the storage can be reached, the position at
  which the embedding backend fails during an insertion (if it does), and the distance
  between a query text and a stored text that the embedding model induces (smaller is more
  similar).
\<close>

record document =
  page_content :: string
  metadata :: pydict

record vectorstore =
  entries :: "(string \<times> document) list"
  available :: bool
  embed_fails_at :: "nat option"
  distance :: "string \<Rightarrow> string \<Rightarrow> nat"

text \<open>The metadata filter \<^verbatim>\<open>{"client_id": client_id}\<close>.\<close>

definition matches_filter :: "int \<Rightarrow> document \<Rightarrow> bool" where
  "matches_filter client_id d = (map_of (metadata d) ''client_id'' = Some (PInt client_id))"

text \<open>
  \<^verbatim>\<open>vectorstore.similarity_search(query, k=k, filter={"client_id": client_id})\<close>: the \<open>k\<close>
  nearest stored documents among those that match the filter. It raises when the storage
  cannot be reached.
\<close>

definition similarity_search ::
  "vectorstore \<Rightarrow> string \<Rightarrow> nat \<Rightarrow> int \<Rightarrow> error + document list" where
  "similarity_search vs query k client_id =
     (if \<not> available vs then Inl (StorageUnavailable ''storage unavailable'')
      else Inr (take k (sort_key (\<lambda>d. distance vs query (page_content d))
                         (filter (matches_filter client_id) (map snd (entries vs))))))"

text \<open>
  \<^verbatim>\<open>vectorstore.add_documents(docs)\<close> is called without \<^verbatim>\<open>ids\<close>, so the store generates one
  key per document (drawn from the same identifier generator), then embeds and writes the
  documents. Where a failing insertion stops is the store's business:
  \<open>embed_fails_at = Some n\<close> says that the embedding backend fails when \<open>n\<close> documents of
  the insertion have been written; the call then raises and these \<open>n\<close> documents are in the
  store. A store that embeds and writes document by document can fail at any \<open>n\<close>; a store
  that embeds all documents before it writes the first one fails at \<open>n = 0\<close> only. The
  result is the exception (if any), the generator and the store.
\<close>

definition vs_add_documents ::
  "vectorstore \<Rightarrow> nat \<Rightarrow> document list \<Rightarrow> error option \<times> nat \<times> vectorstore" where
  "vs_add_documents vs u docs =
     (if \<not> available vs then (Some (StorageUnavailable ''storage unavailable''), u, vs)
      else
        let ids = map uuid_str [u ..< u + length docs];
            u' = u + length docs
        in case embed_fails_at vs of
             None \<Rightarrow> (None, u', vs\<lparr>entries := entries vs @ zip ids docs\<rparr>)
           | Some n \<Rightarrow>
               if n < length docs
               then (Some (EmbeddingUnavailable ''embedding failed''), u',
                     vs\<lparr>entries := entries vs @ take n (zip ids docs)\<rparr>)
               else (None, u', vs\<lparr>entries := entries vs @ zip ids docs\<rparr>))"

text \<open>
  \<^verbatim>\<open>vectorstore.delete(ids)\<close> removes the entries stored under the listed keys; a listed
  key that is not in the store is skipped.
\<close>

definition vs_delete :: "vectorstore \<Rightarrow> pyval list \<Rightarrow> error + vectorstore" where
  "vs_delete vs ids =
     (if \<not> available vs then Inl (StorageUnavailable ''storage unavailable'')
      else Inr (vs\<lparr>entries := filter (\<lambda>(key, d). PStr key \<notin> set ids) (entries vs)\<rparr>))"

text \<open>\<open>count(tenant)\<close>: the number of stored fragments whose metadata names the tenant.\<close>

definition count_client :: "vectorstore \<Rightarrow> int \<Rightarrow> nat" where
  "count_client vs client_id = length (filter (matches_filter client_id) (map snd (entries vs)))"

section \<open>The text splitter\<close>

text \<open>
  \<^verbatim>\<open>RecursiveCharacterTextSplitter(chunk_size, chunk_overlap, length_function=len)\<close> is
  LangChain's splitter (a library, not code of the repository); the definitions of this
  section follow its \<^verbatim>\<open>_split_text\<close> and \<^verbatim>\<open>_merge_splits\<close>. It tries the separators
  \<^verbatim>\<open>"\n\n"\<close>, \<^verbatim>\<open>"\n"\<close>, \<^verbatim>\<open>" "\<close>, \<^verbatim>\<open>""\<close> in this order, splits the text at the first one that occurs in it (keeping the separator at the
  head of the following piece), merges the pieces shorter than \<open>chunk_size\<close> into chunks
  with an overlap, and splits the other pieces with the remaining separators.
\<close>

text \<open>\<^verbatim>\<open>str.strip()\<close> removes leading and trailing whitespace.\<close>

definition is_space :: "char \<Rightarrow> bool" where
  "is_space c =
     (c \<in> {CHR 0x09, CHR 0x0A, CHR 0x0B, CHR 0x0C, CHR 0x0D,
            CHR 0x1C, CHR 0x1D, CHR 0x1E, CHR 0x1F, CHR 0x20})"

definition strip :: "string \<Rightarrow> string" where
  "strip s = rev (dropWhile is_space (rev (dropWhile is_space s)))"

text \<open>\<^verbatim>\<open>separator.join(docs)\<close>\<close>

fun join :: "string \<Rightarrow> string list \<Rightarrow> string" where
  "join sep [] = []"
| "join sep [d] = d"
| "join sep (d # ds) = d @ sep @ join sep ds"

text \<open>\<^verbatim>\<open>_join_docs\<close>: the joined and stripped text, or nothing when it is empty.\<close>

definition join_docs :: "string list \<Rightarrow> string \<Rightarrow> string list" where
  "join_docs docs sep = (let text = strip (join sep docs) in if text = [] then [] else [text])"

text \<open>
  The inner \<^verbatim>\<open>while\<close> loop of \<^verbatim>\<open>_merge_splits\<close>: it drops pieces from the front of
  \<^verbatim>\<open>current_doc\<close> while the total is above the overlap, or while the next piece (of length
  \<open>len\<close>) does not fit. The total is positive only when \<^verbatim>\<open>current_doc\<close> is not empty.
\<close>

function pop_front ::
  "nat \<Rightarrow> nat \<Rightarrow> nat \<Rightarrow> nat \<Rightarrow> string list \<Rightarrow> nat \<Rightarrow> string list \<times> nat" where
  "pop_front chunk_size chunk_overlap sep_len len current_doc total_len =
     (if current_doc \<noteq> [] \<and>
         (total_len > chunk_overlap \<or>
          (total_len + len + (if length current_doc > 0 then sep_len else 0) > chunk_size
           \<and> total_len > 0))
      then pop_front chunk_size chunk_overlap sep_len len (tl current_doc)
             (total_len - (length (hd current_doc) + (if length current_doc > 1 then sep_len else 0)))
      else (current_doc, total_len))"
  by pat_completeness auto
termination
  by (relation "measure (\<lambda>(n, ov, sl, l, cur, t). length cur)") auto

declare pop_front.simps [simp del]

text \<open>
  \<^verbatim>\<open>_merge_splits\<close>: the loop over the pieces, with \<^verbatim>\<open>current_doc\<close> and \<^verbatim>\<open>total\<close> as its state.
  One round (\<open>merge_step\<close>) yields the chunk that it appends to \<^verbatim>\<open>docs\<close> (if any) and the new
  state; the result lists the chunks in the order in which the loop appends them.
\<close>

definition merge_step ::
  "nat \<Rightarrow> nat \<Rightarrow> string \<Rightarrow> string list \<Rightarrow> nat \<Rightarrow> string
     \<Rightarrow> string list \<times> string list \<times> nat" where
  "merge_step chunk_size chunk_overlap sep current_doc total_len d =
     (let len = length d; sep_len = length sep in
      if total_len + len + (if length current_doc > 0 then sep_len else 0) > chunk_size
         \<and> length current_doc > 0
      then
        (let (cur, tot) = pop_front chunk_size chunk_overlap sep_len len current_doc total_len
         in (join_docs current_doc sep, cur @ [d],
             tot + len + (if length (cur @ [d]) > 1 then sep_len else 0)))
      else
        ([], current_doc @ [d],
         total_len + len + (if length (current_doc @ [d]) > 1 then sep_len else 0)))"

fun merge_loop ::
  "nat \<Rightarrow> nat \<Rightarrow> string \<Rightarrow> string list \<Rightarrow> nat \<Rightarrow> string list \<Rightarrow> string list" where
  "merge_loop chunk_size chunk_overlap sep current_doc total_len [] = join_docs current_doc sep"
| "merge_loop chunk_size chunk_overlap sep current_doc total_len (d # splits) =
     (case merge_step chunk_size chunk_overlap sep current_doc total_len d of
        (docs, cur, tot) \<Rightarrow> docs @ merge_loop chunk_size chunk_overlap sep cur tot splits)"

definition merge_splits :: "nat \<Rightarrow> nat \<Rightarrow> string list \<Rightarrow> string \<Rightarrow> string list" where
  "merge_splits chunk_size chunk_overlap splits sep =
     merge_loop chunk_size chunk_overlap sep [] 0 splits"

text \<open>Whether the separator occurs in the text (\<^verbatim>\<open>re.search\<close> of the escaped separator).\<close>

fun contains :: "string \<Rightarrow> string \<Rightarrow> bool" where
  "contains sep [] = (sep = [])"
| "contains sep (c # cs) = (take (length sep) (c # cs) = sep \<or> contains sep cs)"

text \<open>
  The pieces between the occurrences of a non-empty separator, from the left and without
  overlaps; \<open>piece\<close> collects the piece being read.
\<close>

function split_on :: "string \<Rightarrow> string \<Rightarrow> string \<Rightarrow> string list" where
  "split_on sep piece [] = [piece]"
| "split_on sep piece (c # cs) =
     (if sep \<noteq> [] \<and> take (length sep) (c # cs) = sep
      then piece # split_on sep [] (drop (length sep) (c # cs))
      else split_on sep (piece @ [c]) cs)"
  by pat_completeness auto
termination
  by (relation "measure (\<lambda>(sep, piece, text). length text)") auto

text \<open>
  \<^verbatim>\<open>_split_text_with_regex(text, separator, keep_separator=True)\<close>: the empty separator
  splits into characters; otherwise every piece but the first starts with the separator.
  Empty pieces are dropped.
\<close>

definition split_text_with_regex :: "string \<Rightarrow> string \<Rightarrow> string list" where
  "split_text_with_regex text sep =
     filter (\<lambda>s. s \<noteq> [])
       (if sep \<noteq> [] then
          (case split_on sep [] text of
             [] \<Rightarrow> []
           | first # others \<Rightarrow> first # map (\<lambda>p. sep @ p) others)
        else map (\<lambda>c. [c]) text)"

text \<open>
  The loop of \<^verbatim>\<open>_split_text\<close> over the pieces: a piece shorter than \<open>chunk_size\<close> is collected
  in \<^verbatim>\<open>_good_splits\<close>; a longer one first flushes the collected pieces through
  \<^verbatim>\<open>_merge_splits\<close> and then contributes its own chunks.
\<close>

datatype piece = Good string | Final "string list"

fun assemble :: "nat \<Rightarrow> nat \<Rightarrow> string list \<Rightarrow> piece list \<Rightarrow> string list" where
  "assemble chunk_size chunk_overlap good_splits [] =
     (if good_splits \<noteq> [] then merge_splits chunk_size chunk_overlap good_splits [] else [])"
| "assemble chunk_size chunk_overlap good_splits (Good s # ps) =
     assemble chunk_size chunk_overlap (good_splits @ [s]) ps"
| "assemble chunk_size chunk_overlap good_splits (Final chunks # ps) =
     (if good_splits \<noteq> [] then merge_splits chunk_size chunk_overlap good_splits [] else [])
     @ chunks @ assemble chunk_size chunk_overlap [] ps"

text \<open>
  \<^verbatim>\<open>_split_text(text, separators)\<close>. The head of the list is tried first; the empty
  separator always applies; when no separator occurs, the last one is used. The pieces
  are merged with the empty string, since the separators are kept in them.
\<close>

fun split_text_with :: "nat \<Rightarrow> nat \<Rightarrow> string list \<Rightarrow> string \<Rightarrow> string list" where
  "split_text_with chunk_size chunk_overlap [] text = []"
| "split_text_with chunk_size chunk_overlap (sep # separators) text =
     (if sep = [] then
        assemble chunk_size chunk_overlap []
          (map (\<lambda>s. if length s < chunk_size then Good s else Final [s])
             (split_text_with_regex text sep))
      else if contains sep text then
        assemble chunk_size chunk_overlap []
          (map (\<lambda>s. if length s < chunk_size then Good s
                      else if separators = [] then Final [s]
                      else Final (split_text_with chunk_size chunk_overlap separators s))
             (split_text_with_regex text sep))
      else if separators = [] then
        assemble chunk_size chunk_overlap []
          (map (\<lambda>s. if length s < chunk_size then Good s else Final [s])
             (split_text_with_regex text sep))
      else split_text_with chunk_size chunk_overlap separators text)"

definition split_text :: "nat \<Rightarrow> nat \<Rightarrow> string \<Rightarrow> string list" where
  "split_text chunk_size chunk_overlap text =
     split_text_with chunk_size chunk_overlap
       [[CHR 0x0A, CHR 0x0A], [CHR 0x0A], [CHR 0x20], []] text"

section \<open>The RAG service\<close>

text \<open>
  The fields of \<^verbatim>\<open>RAGService\<close> that the operations use: the text splitter, the vector store
  and the question-answering chain (absent until \<^verbatim>\<open>setup_qa_chain\<close> succeeds), together with
  the state of the identifier generator. The chain is the generative model behind it: it
  maps the question and the retrieved documents to an answer or raises.
\<close>

record rag_service =
  text_splitter :: "string \<Rightarrow> string list"
  the_vectorstore :: vectorstore
  qa_chain :: "(string \<Rightarrow> document list \<Rightarrow> error + string) option"
  uuid_state :: nat

text \<open>
  \<^verbatim>\<open>__init__\<close>: the splitter has \<^verbatim>\<open>chunk_size=1000\<close> and \<^verbatim>\<open>chunk_overlap=200\<close>, there is no
  chain yet, and the store is the persisted collection that is opened.
\<close>

definition RAGService_init :: "vectorstore \<Rightarrow> nat \<Rightarrow> rag_service" where
  "RAGService_init vs u =
     \<lparr>text_splitter = split_text 1000 200, the_vectorstore = vs, qa_chain = None,
      uuid_state = u\<rparr>"

subsection \<open>add_documents\<close>

text \<open>
  The inner loop of \<^verbatim>\<open>add_documents\<close>: one \<^verbatim>\<open>Document\<close> per chunk, each with a newly drawn
  \<^verbatim>\<open>doc_id\<close>. The arguments are the source dictionary, the client, the generator, the index
  \<open>i\<close> of \<^verbatim>\<open>enumerate\<close> and the remaining chunks; the result pairs each \<^verbatim>\<open>doc_id\<close> with its
  document.
\<close>

fun chunk_documents ::
  "pydict \<Rightarrow> int \<Rightarrow> nat \<Rightarrow> nat \<Rightarrow> string list \<Rightarrow> (string \<times> document) list" where
  "chunk_documents doc client_id u i [] = []"
| "chunk_documents doc client_id u i (chunk # chunks) =
     (let doc_id = uuid_str u in
      (doc_id,
       \<lparr>page_content = chunk,
        metadata =
          [(''client_id'', PInt client_id),
           (''source_id'', dict_get doc ''source_id'' PNone),
           (''source_type'', dict_get doc ''source_type'' (PStr ''unknown'')),
           (''title'', dict_get doc ''title'' (PStr '''')),
           (''chunk_index'', PInt (int i)),
           (''doc_id'', PStr doc_id)]\<rparr>)
      # chunk_documents doc client_id (Suc u) (Suc i) chunks)"

text \<open>
  The outer loop. \<^verbatim>\<open>doc['content']\<close> raises \<^verbatim>\<open>KeyError\<close> when the key is missing, and
  splitting something that is not a string raises \<^verbatim>\<open>TypeError\<close>.
\<close>

fun build_documents ::
  "(string \<Rightarrow> string list) \<Rightarrow> int \<Rightarrow> nat \<Rightarrow> pydict list
     \<Rightarrow> (error + (string \<times> document) list) \<times> nat" where
  "build_documents split client_id u [] = (Inr [], u)"
| "build_documents split client_id u (doc # documents) =
     (case map_of doc ''content'' of
        None \<Rightarrow> (Inl (KeyError ''content''), u)
      | Some (PStr text) \<Rightarrow>
          (let chunks = split text;
               new = chunk_documents doc client_id u 0 chunks
           in case build_documents split client_id (u + length chunks) documents of
                (Inl e, u') \<Rightarrow> (Inl e, u')
              | (Inr rest, u') \<Rightarrow> (Inr (new @ rest), u'))
      | Some _ \<Rightarrow> (Inl (TypeError ''expected string or bytes-like object''), u))"

text \<open>
  \<^verbatim>\<open>add_documents\<close> hands all documents to the store in one call, and only when there is
  at least one. Its handler logs and re-raises: nothing is deleted.
\<close>

definition add_documents ::
  "rag_service \<Rightarrow> pydict list \<Rightarrow> int \<Rightarrow> (error + string list) \<times> rag_service" where
  "add_documents self documents client_id =
     (case build_documents (text_splitter self) client_id (uuid_state self) documents of
        (Inl e, u) \<Rightarrow> (Inl e, self\<lparr>uuid_state := u\<rparr>)
      | (Inr built, u) \<Rightarrow>
          (let langchain_docs = map snd built;
               doc_ids = map fst built
           in if langchain_docs \<noteq> [] then
                (case vs_add_documents (the_vectorstore self) u langchain_docs of
                   (Some e, u', vs') \<Rightarrow> (Inl e, self\<lparr>the_vectorstore := vs', uuid_state := u'\<rparr>)
                 | (None, u', vs') \<Rightarrow>
                     (Inr doc_ids, self\<lparr>the_vectorstore := vs', uuid_state := u'\<rparr>))
              else (Inr doc_ids, self\<lparr>uuid_state := u\<rparr>)))"

subsection \<open>search_documents\<close>

text \<open>
  A \<^verbatim>\<open>Document\<close> has no \<^verbatim>\<open>score\<close> attribute, so \<^verbatim>\<open>getattr(doc, 'score', 0.0)\<close> is \<^verbatim>\<open>0.0\<close>.
  Any exception of the search is logged and the empty list is returned.
\<close>

definition search_result :: "document \<Rightarrow> pydict" where
  "search_result doc =
     [(''content'', PStr (page_content doc)),
      (''metadata'', PDict (metadata doc)),
      (''score'', PFloat 0)]"

definition search_documents :: "rag_service \<Rightarrow> string \<Rightarrow> int \<Rightarrow> nat \<Rightarrow> pydict list" where
  "search_documents self query client_id k =
     (case similarity_search (the_vectorstore self) query k client_id of
        Inl e \<Rightarrow> []
      | Inr results \<Rightarrow> map search_result results)"

subsection \<open>get_client_documents and delete_client_documents\<close>

text \<open>
  Both enumerate the client's documents by a similarity search for the empty string with
  \<^verbatim>\<open>k=1000\<close>. \<^verbatim>\<open>get_client_documents\<close> groups what it finds by \<^verbatim>\<open>source_id\<close> in a dictionary
  \<^verbatim>\<open>sources\<close> (kept in insertion order) and returns its values.
\<close>

definition new_source :: "pyval \<Rightarrow> document \<Rightarrow> pydict" where
  "new_source source_id doc =
     [(''source_id'', source_id),
      (''source_type'', dict_get (metadata doc) ''source_type'' (PStr ''unknown'')),
      (''title'', dict_get (metadata doc) ''title'' (PStr '''')),
      (''chunks'', PList [])]"

definition chunk_entry :: "document \<Rightarrow> pyval" where
  "chunk_entry doc =
     PDict [(''content'', PStr (page_content doc)),
            (''chunk_index'', dict_get (metadata doc) ''chunk_index'' (PInt 0)),
            (''metadata'', PDict (metadata doc))]"

text \<open>\<^verbatim>\<open>source['chunks'].append(c)\<close>\<close>

fun append_chunk :: "pyval \<Rightarrow> pydict \<Rightarrow> pydict" where
  "append_chunk c [] = []"
| "append_chunk c ((k, v) # source) =
     (if k = ''chunks''
      then (k, (case v of PList cs \<Rightarrow> PList (cs @ [c]) | _ \<Rightarrow> v)) # source
      else (k, v) # append_chunk c source)"

fun group_by_source :: "(pyval \<times> pydict) list \<Rightarrow> document list \<Rightarrow> (pyval \<times> pydict) list" where
  "group_by_source sources [] = sources"
| "group_by_source sources (doc # results) =
     (let source_id = dict_get (metadata doc) ''source_id'' (PStr ''unknown'');
          sources1 = (if source_id \<notin> fst ` set sources
                      then sources @ [(source_id, new_source source_id doc)]
                      else sources);
          sources2 = map (\<lambda>(sid, source).
                            if sid = source_id then (sid, append_chunk (chunk_entry doc) source)
                            else (sid, source)) sources1
      in group_by_source sources2 results)"

definition get_client_documents :: "rag_service \<Rightarrow> int \<Rightarrow> pydict list" where
  "get_client_documents self client_id =
     (case similarity_search (the_vectorstore self) '''' 1000 client_id of
        Inl e \<Rightarrow> []
      | Inr results \<Rightarrow> map snd (group_by_source [] results))"

text \<open>
  \<^verbatim>\<open>delete_client_documents\<close> collects the truthy \<^verbatim>\<open>doc_id\<close> metadata of what the search
  returned and passes them to \<^verbatim>\<open>vectorstore.delete\<close>. Any exception gives \<^verbatim>\<open>False\<close>.
\<close>

definition delete_client_documents :: "rag_service \<Rightarrow> int \<Rightarrow> bool \<times> rag_service" where
  "delete_client_documents self client_id =
     (case similarity_search (the_vectorstore self) '''' 1000 client_id of
        Inl e \<Rightarrow> (False, self)
      | Inr results \<Rightarrow>
          (let doc_ids = map (\<lambda>doc. dict_get (metadata doc) ''doc_id'' PNone)
                           (filter (\<lambda>doc. truthy (dict_get (metadata doc) ''doc_id'' PNone)) results)
           in if doc_ids \<noteq> [] then
                (case vs_delete (the_vectorstore self) doc_ids of
                   Inl e \<Rightarrow> (False, self)
                 | Inr vs' \<Rightarrow> (True, self\<lparr>the_vectorstore := vs'\<rparr>))
              else (True, self)))"

subsection \<open>query\<close>

text \<open>
  The chain retrieves the five nearest documents of the client (the retriever that
  \<^verbatim>\<open>query\<close> installs on it) and asks the model for an answer; either step may raise.
\<close>

definition run_qa_chain ::
  "(string \<Rightarrow> document list \<Rightarrow> error + string) \<Rightarrow> vectorstore \<Rightarrow> int \<Rightarrow> string
     \<Rightarrow> error + (string \<times> document list)" where
  "run_qa_chain llm vs client_id question =
     (case similarity_search vs question 5 client_id of
        Inl e \<Rightarrow> Inl e
      | Inr docs \<Rightarrow>
          (case llm question docs of
             Inl e \<Rightarrow> Inl e
           | Inr answer \<Rightarrow> Inr (answer, docs)))"

definition error_response :: "error \<Rightarrow> string \<Rightarrow> pydict" where
  "error_response e question =
     [(''answer'', PStr (''Error processing query: '' @ str_error e)),
      (''sources'', PList []),
      (''question'', PStr question)]"

definition query :: "rag_service \<Rightarrow> string \<Rightarrow> int \<Rightarrow> pydict" where
  "query self question client_id =
     (case qa_chain self of
        None \<Rightarrow>
          error_response (ValueError ''QA chain not initialized. Call setup_qa_chain first.'')
            question
      | Some llm \<Rightarrow>
          (case run_qa_chain llm (the_vectorstore self) client_id question of
             Inl e \<Rightarrow> error_response e question
           | Inr (answer, source_documents) \<Rightarrow>
               [(''answer'', PStr answer),
                (''sources'',
                 PList (map (\<lambda>doc. PDict [(''content'', PStr (page_content doc)),
                                            (''metadata'', PDict (metadata doc))])
                          source_documents)),
                (''question'', PStr question)]))"

section \<open>The reindexing task\<close>

text \<open>
  \<^verbatim>\<open>reindex_documents_task\<close> of \<^verbatim>\<open>app/tasks/rag_tasks.py\<close>. For a truthy \<^verbatim>\<open>client_id\<close> it
  reads the client's sources, deletes the client's documents (ignoring the result) and adds
  one document per source again; the content of that document is
  \<^verbatim>\<open>doc.get('content', '')\<close>.
\<close>

definition reindex_doc_data :: "pydict \<Rightarrow> pydict" where
  "reindex_doc_data doc =
     [(''content'', dict_get doc ''content'' (PStr '''')),
      (''title'', dict_get doc ''title'' (PStr '''')),
      (''source_type'', dict_get doc ''source_type'' (PStr ''unknown'')),
      (''metadata'', dict_get doc ''metadata'' (PDict []))]"

fun reindex_loop :: "rag_service \<Rightarrow> int \<Rightarrow> pydict list \<Rightarrow> error option \<times> rag_service" where
  "reindex_loop self client_id [] = (None, self)"
| "reindex_loop self client_id (doc # documents) =
     (case add_documents self [reindex_doc_data doc] client_id of
        (Inl e, self') \<Rightarrow> (Some e, self')
      | (Inr ids, self') \<Rightarrow> reindex_loop self' client_id documents)"

definition reindex_documents_task :: "rag_service \<Rightarrow> int option \<Rightarrow> pydict \<times> rag_service" where
  "reindex_documents_task self client_id =
     (case client_id of
        None \<Rightarrow>
          ([(''status'', PStr ''completed''), (''message'', PStr ''Reindexing completed'')], self)
      | Some c \<Rightarrow>
          if c \<noteq> 0 then
            (let documents = get_client_documents self c;
                 self1 = snd (delete_client_documents self c)
             in case reindex_loop self1 c documents of
                  (Some e, self2) \<Rightarrow>
                    ([(''status'', PStr ''failed''), (''error'', PStr (str_error e))], self2)
                | (None, self2) \<Rightarrow>
                    ([(''status'', PStr ''completed''), (''client_id'', PInt c),
                      (''documents_reindexed'', PInt (int (length documents)))], self2))
          else
            ([(''status'', PStr ''completed''), (''message'', PStr ''Reindexing completed'')],
             self))"

section \<open>Notions used in the statements\<close>

text \<open>
  What the enumeration of \<^verbatim>\<open>get_client_documents\<close> and \<^verbatim>\<open>delete_client_documents\<close> finds in a
  reachable store (the result of the similarity search for the empty string with
  \<^verbatim>\<open>k=1000\<close>), the \<^verbatim>\<open>doc_id\<close> values that \<^verbatim>\<open>delete_client_documents\<close> collects from it, and the
  entries that are left when the store deletes a list of keys.
\<close>

definition found_documents :: "vectorstore \<Rightarrow> int \<Rightarrow> document list" where
  "found_documents vs c =
     take 1000 (sort_key (\<lambda>d. distance vs '''' (page_content d))
                  (filter (matches_filter c) (map snd (entries vs))))"

definition found_doc_ids :: "vectorstore \<Rightarrow> int \<Rightarrow> pyval list" where
  "found_doc_ids vs c =
     map (\<lambda>doc. dict_get (metadata doc) ''doc_id'' PNone)
       (filter (\<lambda>doc. truthy (dict_get (metadata doc) ''doc_id'' PNone)) (found_documents vs c))"

definition without_ids :: "pyval list \<Rightarrow> (string \<times> document) list \<Rightarrow> (string \<times> document) list" where
  "without_ids ids es = filter (\<lambda>(key, d). PStr key \<notin> set ids) es"

text \<open>
  The chunks of a source dictionary returned by \<^verbatim>\<open>get_client_documents\<close>, and their number
  over all sources.
\<close>

definition chunks_of :: "pydict \<Rightarrow> pyval list" where
  "chunks_of source = (case map_of source ''chunks'' of Some (PList cs) \<Rightarrow> cs | _ \<Rightarrow> [])"

definition total_chunks :: "pydict list \<Rightarrow> nat" where
  "total_chunks sources = sum_list (map (\<lambda>source. length (chunks_of source)) sources)"

definition has_chunks :: "pydict \<Rightarrow> bool" where
  "has_chunks source = (\<exists>cs. map_of source ''chunks'' = Some (PList cs))"



section \<open>Example states\<close>

text \<open>
  A reachable empty store, the service that \<^verbatim>\<open>__init__\<close> builds on it, and the service after
  one document has been added for client 1 and one for client 2.
\<close>

definition example_store :: vectorstore where
  "example_store = \<lparr>entries = [], available = True, embed_fails_at = None,
     distance = (\<lambda>q t. length t)\<rparr>"

definition example_service :: rag_service where
  "example_service = RAGService_init example_store 0"

definition example_doc :: "string \<Rightarrow> pydict" where
  "example_doc text = [(''content'', PStr text), (''title'', PStr ''note''),
     (''source_id'', PInt 7), (''source_type'', PStr ''manual'')]"

definition two_tenants :: rag_service where
  "two_tenants =
     snd (add_documents (snd (add_documents example_service [example_doc ''alpha''] 1))
            [example_doc ''beta''] 2)"

definition unreachable :: "rag_service \<Rightarrow> rag_service" where
  "unreachable self = self\<lparr>the_vectorstore := (the_vectorstore self)\<lparr>available := False\<rparr>\<rparr>"


definition three_docs :: "pydict list" where
  "three_docs = [example_doc ''alpha'', example_doc ''beta'', example_doc ''gamma'']"

definition failing_llm :: "string \<Rightarrow> document list \<Rightarrow> error + string" where
  "failing_llm question docs = Inl (GenerationError ''model unavailable'')"

text \<open>
  The service after 1001 one-chunk documents have been added for client 1, and the store of
  \<open>two_tenants\<close> without its first entry.
\<close>

definition many_docs :: "pydict list" where
  "many_docs = replicate 1001 (example_doc ''alpha'')"

definition big_service :: rag_service where
  "big_service = snd (add_documents example_service many_docs 1)"

definition deleted_once :: vectorstore where
  "deleted_once = (the_vectorstore two_tenants)\<lparr>entries := tl (entries (the_vectorstore two_tenants))\<rparr>"

text \<open>The service after three fragments of one source (\<^verbatim>\<open>source_id\<close> 7) were added for client 1.\<close>

definition three_fragments :: rag_service where
  "three_fragments = snd (add_documents example_service three_docs 1)"



section \<open>Tenant isolation of the search\<close>

lemma similarity_search_matches:
  assumes "similarity_search vs q k client_id = Inr results" and "d \<in> set results"
  shows "matches_filter client_id d"
proof -
  from assms have "d \<in> set (take k (sort_key (\<lambda>d. distance vs q (page_content d))
                         (filter (matches_filter client_id) (map snd (entries vs)))))"
    by (auto simp: similarity_search_def split: if_splits)
  then have "d \<in> set (filter (matches_filter client_id) (map snd (entries vs)))"
    by (auto dest: in_set_takeD)
  then show ?thesis by simp
qed

lemma two_tenants_entries:
  "entries (the_vectorstore two_tenants) =
          [(''uuid-i'',
            \<lparr>page_content = ''alpha'',
               metadata =
                 [(''client_id'', PInt 1), (''source_id'', PInt 7),
                  (''source_type'', PStr ''manual''),
                  (''title'', PStr ''note''), (''chunk_index'', PInt 0),
                  (''doc_id'', PStr ''uuid-'')]\<rparr>),
           (''uuid-iii'',
            \<lparr>page_content = ''beta'',
               metadata =
                 [(''client_id'', PInt 2), (''source_id'', PInt 7),
                  (''source_type'', PStr ''manual''),
                  (''title'', PStr ''note''), (''chunk_index'', PInt 0),
                  (''doc_id'', PStr ''uuid-ii'')]\<rparr>)]"
  by code_simp

text \<open>
  C1. Every result of \<^verbatim>\<open>search_documents(query, client_id, k)\<close> carries the metadata of a
  fragment whose \<^verbatim>\<open>client_id\<close> is the requested one; no result has the \<^verbatim>\<open>client_id\<close> of another
  tenant. (When the search raises, the result is empty.)
\<close>

theorem search_documents_tenant_isolation:
  "\<forall>r \<in> set (search_documents self q a k).
     \<exists>md. map_of r ''metadata'' = Some (PDict md) \<and>
          map_of md ''client_id'' = Some (PInt a) \<and>
          (\<forall>b. b \<noteq> a \<longrightarrow> map_of md ''client_id'' \<noteq> Some (PInt b))"
proof
  fix r assume "r \<in> set (search_documents self q a k)"
  then obtain results d where res: "similarity_search (the_vectorstore self) q k a = Inr results"
    and d: "d \<in> set results" and r: "r = search_result d"
    by (cases "similarity_search (the_vectorstore self) q k a")
       (auto simp: search_documents_def)
  from similarity_search_matches[OF res d]
  have "map_of (metadata d) ''client_id'' = Some (PInt a)" by (simp add: matches_filter_def)
  then show "\<exists>md. map_of r ''metadata'' = Some (PDict md) \<and>
          map_of md ''client_id'' = Some (PInt a) \<and>
          (\<forall>b. b \<noteq> a \<longrightarrow> map_of md ''client_id'' \<noteq> Some (PInt b))"
    by (simp add: r search_result_def)
qed

lemma search_eval: "search_documents two_tenants ''alpha'' 1 5 =
   [[(''content'', PStr ''alpha''),
     (''metadata'', PDict [(''client_id'', PInt 1), (''source_id'', PInt 7),
                  (''source_type'', PStr ''manual''),
                  (''title'', PStr ''note''), (''chunk_index'', PInt 0),
                  (''doc_id'', PStr ''uuid-'')]),
     (''score'', PFloat 0)]]"
  by code_simp


theorem search_documents_tenant_isolation_witness:
  "\<exists>r md. search_documents two_tenants ''alpha'' 1 5 = [r] \<and>
     map_of r ''metadata'' = Some (PDict md) \<and>
     map_of md ''client_id'' = Some (PInt 1) \<and>
     map_of md ''client_id'' \<noteq> Some (PInt 2)"
  using search_documents_tenant_isolation [of two_tenants "''alpha''" 1 5]
  by (simp add: search_eval)

section \<open>The empty query\<close>

lemma two_tenants_available: "available (the_vectorstore two_tenants)"
  by code_simp

lemma two_tenants_count: "count_client (the_vectorstore two_tenants) 1 = 1"
  by code_simp

text \<open>
  C3, as stated, fails: \<^verbatim>\<open>search_documents\<close> has no check of the query text. With the empty
  query it returns the fragment of client 1 instead of failing with an \<^verbatim>\<open>EmptyQuery\<close> error.
\<close>

theorem empty_query_counterexample:
  "search_documents two_tenants '''' 1 5 =
     [[(''content'', PStr ''alpha''),
       (''metadata'', PDict [(''client_id'', PInt 1), (''source_id'', PInt 7),
                  (''source_type'', PStr ''manual''),
                  (''title'', PStr ''note''), (''chunk_index'', PInt 0),
                  (''doc_id'', PStr ''uuid-'')]),
       (''score'', PFloat 0)]]"
  by code_simp

text \<open>
  C3, amended. While the store can be reached, \<^verbatim>\<open>search_documents\<close> with the empty query
  text runs the tenant-filtered similarity search like any other query: it returns the
  \<open>k\<close> nearest fragments of the client, that is \<open>min k (count client)\<close> results.
  (\<^verbatim>\<open>get_client_documents\<close> and \<^verbatim>\<open>delete_client_documents\<close> rely on this.)
\<close>

theorem empty_query_is_searched:
  assumes "available (the_vectorstore self)"
  shows "search_documents self '''' c k =
           map search_result
             (take k (sort_key (\<lambda>d. distance (the_vectorstore self) '''' (page_content d))
                        (filter (matches_filter c) (map snd (entries (the_vectorstore self))))))
         \<and> length (search_documents self '''' c k) = min k (count_client (the_vectorstore self) c)"
  using assms
  by (simp add: search_documents_def similarity_search_def count_client_def min.commute)

theorem empty_query_is_searched_witness:
  "available (the_vectorstore two_tenants) \<and>
   length (search_documents two_tenants '''' 1 5) = 1"
proof -
  have "length (search_documents two_tenants '''' 1 5)
          = min 5 (count_client (the_vectorstore two_tenants) 1)"
    using empty_query_is_searched [OF two_tenants_available, of 1 5] by (rule conjunct2)
  then show ?thesis by (simp add: two_tenants_available two_tenants_count)
qed

section \<open>Unavailable storage\<close>

lemma unreachable_not_available: "\<not> available (the_vectorstore (unreachable self))"
  by (simp add: unreachable_def)

lemma unreachable_build:
  "build_documents (text_splitter (unreachable two_tenants)) 1
       (uuid_state (unreachable two_tenants)) [example_doc ''alpha''] =
   (Inr [(''uuid-iiii'',
            \<lparr>page_content = ''alpha'',
               metadata =
                 [(''client_id'', PInt 1), (''source_id'', PInt 7),
                  (''source_type'', PStr ''manual''),
                  (''title'', PStr ''note''), (''chunk_index'', PInt 0),
                  (''doc_id'', PStr ''uuid-iiii'')]\<rparr>)], 5)"
  by code_simp

text \<open>
  C4, as stated, fails for the search: when the store raises, \<^verbatim>\<open>search_documents\<close> returns
  the empty list, as if nothing had matched.
\<close>

theorem storage_unavailable_counterexample:
  "similarity_search (the_vectorstore (unreachable two_tenants)) ''alpha'' 5 1
     = Inl (StorageUnavailable ''storage unavailable'') \<and>
   search_documents (unreachable two_tenants) ''alpha'' 1 5 = []"
  by code_simp

text \<open>
  C4, amended. While the storage is unavailable, \<^verbatim>\<open>search_documents\<close> returns the empty
  list (its handler logs the exception and swallows it). \<^verbatim>\<open>add_documents\<close> with at least
  one chunk to insert fails with the store's error, which its handler re-raises, and
  leaves the store as it was.
\<close>

theorem storage_unavailable_behaviour:
  assumes "\<not> available (the_vectorstore self)"
  shows "search_documents self q c k = [] \<and>
         (\<forall>built u. build_documents (text_splitter self) c (uuid_state self) documents = (Inr built, u)
              \<and> built \<noteq> [] \<longrightarrow>
            fst (add_documents self documents c) = Inl (StorageUnavailable ''storage unavailable'')
            \<and> the_vectorstore (snd (add_documents self documents c)) = the_vectorstore self)"
  using assms
  by (auto simp: search_documents_def similarity_search_def add_documents_def
                 vs_add_documents_def)

theorem storage_unavailable_behaviour_witness:
  "\<not> available (the_vectorstore (unreachable two_tenants)) \<and>
   search_documents (unreachable two_tenants) ''alpha'' 1 5 = [] \<and>
   fst (add_documents (unreachable two_tenants) [example_doc ''alpha''] 1)
     = Inl (StorageUnavailable ''storage unavailable'') \<and>
   the_vectorstore (snd (add_documents (unreachable two_tenants) [example_doc ''alpha''] 1))
     = the_vectorstore (unreachable two_tenants)"
proof -
  note h = storage_unavailable_behaviour
          [OF unreachable_not_available, of two_tenants "''alpha''" 1 5 "[example_doc ''alpha'']"]
  from h have "search_documents (unreachable two_tenants) ''alpha'' 1 5 = []"
    by (rule conjunct1)
  moreover from h unreachable_build
  have "fst (add_documents (unreachable two_tenants) [example_doc ''alpha''] 1)
          = Inl (StorageUnavailable ''storage unavailable'') \<and>
        the_vectorstore (snd (add_documents (unreachable two_tenants) [example_doc ''alpha''] 1))
          = the_vectorstore (unreachable two_tenants)"
    by blast
  ultimately show ?thesis using unreachable_not_available by blast
qed

section \<open>Documents built by add_documents\<close>

lemma uuid_str_inj: "uuid_str m = uuid_str n \<longleftrightarrow> m = n"
proof
  assume "uuid_str m = uuid_str n"
  then have "length (uuid_str m) = length (uuid_str n)" by simp
  then show "m = n" by (simp add: uuid_str_def)
qed simp

lemma chunk_documents_ids:
  "map fst (chunk_documents doc c u i chunks) = map uuid_str [u ..< u + length chunks]"
proof (induction chunks arbitrary: u i)
  case Nil
  then show ?case by simp
next
  case (Cons chunk chunks)
  have "[u ..< u + length (chunk # chunks)] = u # [Suc u ..< Suc u + length chunks]"
    by (simp add: upt_rec)
  with Cons show ?case by (simp add: Let_def)
qed

lemma chunk_documents_meta:
  "(doc_id, d) \<in> set (chunk_documents doc c u i chunks) \<Longrightarrow>
     map_of (metadata d) ''client_id'' = Some (PInt c) \<and>
     map_of (metadata d) ''doc_id'' = Some (PStr doc_id)"
  by (induction chunks arbitrary: u i) (auto simp: Let_def)

lemma build_documents_ids:
  "build_documents split c u documents = (Inr built, u') \<Longrightarrow>
     map fst built = map uuid_str [u ..< u'] \<and> u' = u + length built"
proof (induction documents arbitrary: u built u')
  case Nil
  then show ?case by simp
next
  case (Cons doc documents)
  from Cons.prems obtain t rest where
    content: "map_of doc ''content'' = Some (PStr t)" and
    rest: "build_documents split c (u + length (split t)) documents = (Inr rest, u')" and
    built: "built = chunk_documents doc c u 0 (split t) @ rest"
    by (auto simp: Let_def split: option.splits pyval.splits prod.splits sum.splits)
  from Cons.IH[OF rest] have ih: "map fst rest = map uuid_str [u + length (split t) ..< u']"
    and u': "u' = u + length (split t) + length rest" by auto
  have len: "length (chunk_documents doc c u 0 (split t)) = length (split t)"
    using chunk_documents_ids[of doc c u 0 "split t", THEN arg_cong, of length] by simp
  have "[u ..< u'] = [u ..< u + length (split t)] @ [u + length (split t) ..< u']"
    using u' by (metis le_add1 upt_add_eq_append add.assoc)
  then show ?case using ih u' len by (simp add: built chunk_documents_ids)
qed

lemma build_documents_meta:
  "build_documents split c u documents = (Inr built, u') \<Longrightarrow> (doc_id, d) \<in> set built \<Longrightarrow>
     map_of (metadata d) ''client_id'' = Some (PInt c) \<and>
     map_of (metadata d) ''doc_id'' = Some (PStr doc_id)"
proof (induction documents arbitrary: u built u')
  case Nil
  then show ?case by simp
next
  case (Cons doc documents)
  from Cons.prems(1) obtain t rest where
    rest: "build_documents split c (u + length (split t)) documents = (Inr rest, u')" and
    built: "built = chunk_documents doc c u 0 (split t) @ rest"
    by (auto simp: Let_def split: option.splits pyval.splits prod.splits sum.splits)
  from Cons.prems(2) built
  consider "(doc_id, d) \<in> set (chunk_documents doc c u 0 (split t))" | "(doc_id, d) \<in> set rest"
    by auto
  then show ?case
  proof cases
    case 1
    then show ?thesis by (rule chunk_documents_meta)
  next
    case 2
    with Cons.IH[OF rest] show ?thesis by simp
  qed
qed

lemma build_documents_matches:
  assumes "build_documents split c u documents = (Inr built, u')"
  shows "filter (matches_filter c) (map snd built) = map snd built"
proof -
  have "\<forall>d \<in> set (map snd built). matches_filter c d"
    using build_documents_meta[OF assms] by (auto simp: matches_filter_def)
  then show ?thesis by (simp add: filter_id_conv)
qed

lemma add_documents_success:
  assumes "add_documents self documents c = (Inr ids, self')"
  shows "\<exists>built u'. build_documents (text_splitter self) c (uuid_state self) documents = (Inr built, u')
           \<and> ids = map fst built \<and> u' \<le> uuid_state self'
           \<and> entries (the_vectorstore self') =
               entries (the_vectorstore self) @ zip (map uuid_str [u' ..< u' + length built]) (map snd built)"
proof -
  obtain r u' where b: "build_documents (text_splitter self) c (uuid_state self) documents = (r, u')"
    by (cases "build_documents (text_splitter self) c (uuid_state self) documents")
  with assms obtain built where r: "r = Inr built"
    by (cases r) (auto simp: add_documents_def)
  show ?thesis
  proof (cases "built = []")
    case True
    with assms b r show ?thesis by (auto simp: add_documents_def)
  next
    case False
    with assms b r show ?thesis
      by (auto simp: add_documents_def vs_add_documents_def Let_def
               split: if_splits option.splits prod.splits)
  qed
qed

lemma map_zip_snd': "length ks = length ds \<Longrightarrow> map (\<lambda>(k, d). f d) (zip ks ds) = map f ds"
  by (induction ks ds rule: list_induct2) auto

text \<open>
  C10. When \<^verbatim>\<open>add_documents\<close> succeeds, the entries it adds to the store are one per returned
  \<^verbatim>\<open>doc_id\<close>, in order, each with that \<^verbatim>\<open>doc_id\<close> and with the \<^verbatim>\<open>client_id\<close> of the call in its
  metadata. The identifiers of one call are pairwise different, and two successive calls
  with the same input return disjoint sets of identifiers.
\<close>

theorem add_documents_fresh_doc_ids:
  assumes "add_documents self documents c = (Inr ids1, self1)"
      and "add_documents self1 documents c = (Inr ids2, self2)"
  shows "distinct ids1 \<and> distinct ids2 \<and> set ids1 \<inter> set ids2 = {} \<and>
         (\<exists>new. entries (the_vectorstore self1) = entries (the_vectorstore self) @ new \<and>
            map (\<lambda>(key, d). map_of (metadata d) ''doc_id'') new = map (\<lambda>i. Some (PStr i)) ids1 \<and>
            map (\<lambda>(key, d). map_of (metadata d) ''client_id'') new = map (\<lambda>i. Some (PInt c)) ids1)"
proof -
  from add_documents_success[OF assms(1)] obtain built1 u1 where
    b1: "build_documents (text_splitter self) c (uuid_state self) documents = (Inr built1, u1)"
    and ids1: "ids1 = map fst built1" and le1: "u1 \<le> uuid_state self1"
    and e1: "entries (the_vectorstore self1) =
               entries (the_vectorstore self) @ zip (map uuid_str [u1 ..< u1 + length built1]) (map snd built1)"
    by blast
  from add_documents_success[OF assms(2)] obtain built2 u2 where
    b2: "build_documents (text_splitter self1) c (uuid_state self1) documents = (Inr built2, u2)"
    and ids2: "ids2 = map fst built2"
    by blast
  from build_documents_ids[OF b1] have i1: "ids1 = map uuid_str [uuid_state self ..< u1]"
    by (simp add: ids1)
  from build_documents_ids[OF b2] have i2: "ids2 = map uuid_str [uuid_state self1 ..< u2]"
    by (simp add: ids2)
  have inj: "inj_on uuid_str A" for A by (rule inj_onI) (simp add: uuid_str_inj)
  have d1: "distinct ids1" and d2: "distinct ids2"
    by (simp_all add: i1 i2 distinct_map inj)
  have disj: "set ids1 \<inter> set ids2 = {}"
    using le1 by (auto simp: i1 i2 uuid_str_inj)
  let ?new = "zip (map uuid_str [u1 ..< u1 + length built1]) (map snd built1)"
  have m1: "map (\<lambda>d. map_of (metadata d) ''doc_id'') (map snd built1) = map (\<lambda>i. Some (PStr i)) ids1"
    using build_documents_meta[OF b1] by (auto simp: ids1)
  have m2: "map (\<lambda>d. map_of (metadata d) ''client_id'') (map snd built1) = map (\<lambda>i. Some (PInt c)) ids1"
    using build_documents_meta[OF b1] by (auto simp: ids1)
  have "map (\<lambda>(key, d). map_of (metadata d) ''doc_id'') ?new = map (\<lambda>i. Some (PStr i)) ids1"
    using m1 by (subst map_zip_snd') simp_all
  moreover have "map (\<lambda>(key, d). map_of (metadata d) ''client_id'') ?new = map (\<lambda>i. Some (PInt c)) ids1"
    using m2 by (subst map_zip_snd') simp_all
  ultimately show ?thesis using d1 d2 disj e1 by blast
qed

lemma first_add:
  "fst (add_documents example_service [example_doc ''alpha''] 1) = Inr [''uuid-'']"
  by code_simp

lemma second_add:
  "fst (add_documents (snd (add_documents example_service [example_doc ''alpha''] 1))
          [example_doc ''alpha''] 1) = Inr [''uuid-ii'']"
  by code_simp

theorem add_documents_fresh_doc_ids_witness:
  "fst (add_documents example_service [example_doc ''alpha''] 1) = Inr [''uuid-''] \<and>
   fst (add_documents (snd (add_documents example_service [example_doc ''alpha''] 1))
          [example_doc ''alpha''] 1) = Inr [''uuid-ii''] \<and>
   set [''uuid-''] \<inter> set [''uuid-ii''] = {} \<and>
   (\<exists>new. entries (the_vectorstore (snd (add_documents example_service [example_doc ''alpha''] 1)))
            = entries (the_vectorstore example_service) @ new \<and>
          map (\<lambda>(key, d). map_of (metadata d) ''doc_id'') new = [Some (PStr ''uuid-'')] \<and>
          map (\<lambda>(key, d). map_of (metadata d) ''client_id'') new = [Some (PInt 1)])"
proof -
  let ?r1 = "add_documents example_service [example_doc ''alpha''] 1"
  let ?r2 = "add_documents (snd ?r1) [example_doc ''alpha''] 1"
  have a: "?r1 = (Inr [''uuid-''], snd ?r1)" using first_add by (simp add: prod_eq_iff)
  have b: "?r2 = (Inr [''uuid-ii''], snd ?r2)" using second_add by (simp add: prod_eq_iff)
  from add_documents_fresh_doc_ids [OF a b] show ?thesis
    using first_add second_add by simp
qed

section \<open>A failing insertion\<close>






section \<open>query\<close>

text \<open>
  C8. \<^verbatim>\<open>query\<close> returns a dictionary on every input (the whole body is inside the
  \<^verbatim>\<open>try\<close>). Its \<^verbatim>\<open>question\<close> field is the question. When the chain has not been set up, or
  when retrieval or generation raises, the \<^verbatim>\<open>answer\<close> field is the error text after
  \<^verbatim>\<open>Error processing query: \<close> and the \<^verbatim>\<open>sources\<close> field is the empty list.
\<close>

theorem query_is_total:
  "map_of (query self question c) ''question'' = Some (PStr question) \<and>
   (qa_chain self = None \<longrightarrow>
      map_of (query self question c) ''answer'' =
        Some (PStr (''Error processing query: QA chain not initialized. Call setup_qa_chain first.''))
      \<and> map_of (query self question c) ''sources'' = Some (PList [])) \<and>
   (\<forall>llm e. qa_chain self = Some llm \<and>
        run_qa_chain llm (the_vectorstore self) c question = Inl e \<longrightarrow>
      map_of (query self question c) ''answer'' =
        Some (PStr (''Error processing query: '' @ str_error e))
      \<and> map_of (query self question c) ''sources'' = Some (PList []))"
  by (auto simp: query_def error_response_def split: option.splits sum.splits prod.splits)

lemma example_no_chain: "qa_chain two_tenants = None"
  by code_simp

lemma failing_chain:
  "run_qa_chain failing_llm (the_vectorstore two_tenants) 1 ''why'' =
     Inl (GenerationError ''model unavailable'')"
  by code_simp

theorem query_is_total_witness:
  "qa_chain two_tenants = None \<and>
   map_of (query two_tenants ''why'' 1) ''question'' = Some (PStr ''why'') \<and>
   map_of (query two_tenants ''why'' 1) ''answer'' =
        Some (PStr (''Error processing query: QA chain not initialized. Call setup_qa_chain first.'')) \<and>
   map_of (query two_tenants ''why'' 1) ''sources'' = Some (PList []) \<and>
   map_of (query (two_tenants\<lparr>qa_chain := Some failing_llm\<rparr>) ''why'' 1) ''answer'' =
        Some (PStr ''Error processing query: model unavailable'') \<and>
   map_of (query (two_tenants\<lparr>qa_chain := Some failing_llm\<rparr>) ''why'' 1) ''sources'' =
        Some (PList [])"
proof -
  note a = query_is_total [of two_tenants "''why''" 1]
  note b = query_is_total [of "two_tenants\<lparr>qa_chain := Some failing_llm\<rparr>" "''why''" 1]
  from a example_no_chain
  have "map_of (query two_tenants ''why'' 1) ''question'' = Some (PStr ''why'') \<and>
   map_of (query two_tenants ''why'' 1) ''answer'' =
        Some (PStr (''Error processing query: QA chain not initialized. Call setup_qa_chain first.'')) \<and>
   map_of (query two_tenants ''why'' 1) ''sources'' = Some (PList [])"
    by blast
  moreover
  have "qa_chain (two_tenants\<lparr>qa_chain := Some failing_llm\<rparr>) = Some failing_llm \<and>
        run_qa_chain failing_llm (the_vectorstore (two_tenants\<lparr>qa_chain := Some failing_llm\<rparr>)) 1 ''why''
          = Inl (GenerationError ''model unavailable'')"
    using failing_chain by simp
  with b have "map_of (query (two_tenants\<lparr>qa_chain := Some failing_llm\<rparr>) ''why'' 1) ''answer'' =
        Some (PStr (''Error processing query: '' @ str_error (GenerationError ''model unavailable''))) \<and>
   map_of (query (two_tenants\<lparr>qa_chain := Some failing_llm\<rparr>) ''why'' 1) ''sources'' =
        Some (PList [])"
    by blast
  ultimately show ?thesis using example_no_chain by simp
qed

section \<open>Deleting a client's documents\<close>

lemma enumeration_search:
  "available vs \<Longrightarrow> similarity_search vs '''' 1000 c = Inr (found_documents vs c)"
  by (simp add: similarity_search_def found_documents_def)

lemma vs_delete_available:
  "available vs \<Longrightarrow> vs_delete vs ids = Inr (vs\<lparr>entries := without_ids ids (entries vs)\<rparr>)"
  by (simp add: vs_delete_def without_ids_def)

lemma without_ids_Nil: "without_ids [] es = es"
  by (simp add: without_ids_def)

lemma delete_client_documents_available:
  assumes "available (the_vectorstore self)"
  shows "delete_client_documents self c =
     (True, self\<lparr>the_vectorstore := (the_vectorstore self)\<lparr>entries :=
               without_ids (found_doc_ids (the_vectorstore self) c) (entries (the_vectorstore self))\<rparr>\<rparr>)"
proof (cases "found_doc_ids (the_vectorstore self) c = []")
  case True
  have "delete_client_documents self c = (True, self)"
    unfolding delete_client_documents_def enumeration_search[OF assms]
    using True by (simp add: found_doc_ids_def)
  then show ?thesis by (simp add: True without_ids_Nil)
next
  case False
  show ?thesis
    unfolding delete_client_documents_def enumeration_search[OF assms]
    using False by (simp add: found_doc_ids_def[symmetric] vs_delete_available[OF assms])
qed

lemma found_documents_subset:
  "set (found_documents vs c) \<subseteq> set (filter (matches_filter c) (map snd (entries vs)))"
  by (auto simp: found_documents_def dest: in_set_takeD)

lemma found_documents_all:
  "count_client vs c \<le> 1000 \<Longrightarrow>
     set (found_documents vs c) = set (filter (matches_filter c) (map snd (entries vs)))"
  by (simp add: found_documents_def count_client_def)

lemma found_doc_ids_mono:
  "set (found_documents vs1 c) \<subseteq> set (found_documents vs2 c) \<Longrightarrow>
     set (found_doc_ids vs1 c) \<subseteq> set (found_doc_ids vs2 c)"
  by (auto simp: found_doc_ids_def)

lemma without_ids_subset_id:
  "set ids' \<subseteq> set ids \<Longrightarrow> without_ids ids' (without_ids ids es) = without_ids ids es"
  unfolding without_ids_def filter_filter by (rule filter_cong) auto

lemma delete_client_documents_twice:
  assumes av: "available (the_vectorstore self)"
      and le: "count_client (the_vectorstore self) c \<le> 1000"
  shows "delete_client_documents (snd (delete_client_documents self c)) c
           = delete_client_documents self c"
proof -
  define vs where "vs = the_vectorstore self"
  define es' where "es' = without_ids (found_doc_ids vs c) (entries vs)"
  define vs' where "vs' = vs\<lparr>entries := es'\<rparr>"
  define self' where "self' = self\<lparr>the_vectorstore := vs'\<rparr>"
  have first: "delete_client_documents self c = (True, self')"
    using delete_client_documents_available[OF av, of c]
    by (simp add: self'_def vs'_def es'_def vs_def)
  have av': "available (the_vectorstore self')"
    using av by (simp add: self'_def vs'_def vs_def)
  have "set (filter (matches_filter c) (map snd es'))
          \<subseteq> set (filter (matches_filter c) (map snd (entries vs)))"
    by (auto simp: es'_def without_ids_def)
  with found_documents_subset[of vs' c] found_documents_all[OF le]
  have "set (found_documents vs' c) \<subseteq> set (found_documents vs c)"
    by (simp add: vs'_def vs_def)
  then have "set (found_doc_ids vs' c) \<subseteq> set (found_doc_ids vs c)"
    by (rule found_doc_ids_mono)
  then have "without_ids (found_doc_ids vs' c) es' = es'"
    unfolding es'_def by (rule without_ids_subset_id)
  then have "self'\<lparr>the_vectorstore := (the_vectorstore self')\<lparr>entries :=
               without_ids (found_doc_ids (the_vectorstore self') c) (entries (the_vectorstore self'))\<rparr>\<rparr>
             = self'"
    by (simp add: self'_def vs'_def)
  with delete_client_documents_available[OF av', of c]
  have "delete_client_documents self' c = (True, self')" by simp
  then show ?thesis by (simp add: first)
qed

text \<open>
  C7. Deleting a list of keys from the store a second time changes nothing, and deleting
  keys that are not in the store succeeds and leaves the store as it is. For the service:
  while the store can be reached and the client has at most 1000 fragments,
  \<^verbatim>\<open>delete_client_documents\<close> returns \<^verbatim>\<open>True\<close>, and calling it twice gives the same result and
  the same state as calling it once.
\<close>

theorem delete_is_idempotent:
  "(\<forall>vs1. vs_delete vs ids = Inr vs1 \<longrightarrow> vs_delete vs1 ids = Inr vs1) \<and>
   (available vs \<and> (\<forall>key \<in> fst ` set (entries vs). PStr key \<notin> set ids) \<longrightarrow>
      vs_delete vs ids = Inr vs) \<and>
   (available (the_vectorstore self) \<and> count_client (the_vectorstore self) c \<le> 1000 \<longrightarrow>
      fst (delete_client_documents self c) \<and>
      delete_client_documents (snd (delete_client_documents self c)) c
        = delete_client_documents self c)"
proof (intro conjI allI impI)
  fix vs1 assume "vs_delete vs ids = Inr vs1"
  then show "vs_delete vs1 ids = Inr vs1"
    by (auto simp: vs_delete_def split: if_splits)
next
  assume a: "available vs \<and> (\<forall>key \<in> fst ` set (entries vs). PStr key \<notin> set ids)"
  then have "filter (\<lambda>(key, d). PStr key \<notin> set ids) (entries vs) = entries vs"
    by (auto simp: filter_id_conv)
  with a show "vs_delete vs ids = Inr vs" by (simp add: vs_delete_def)
next
  assume "available (the_vectorstore self) \<and> count_client (the_vectorstore self) c \<le> 1000"
  then show "fst (delete_client_documents self c)"
    by (simp add: delete_client_documents_available)
next
  assume "available (the_vectorstore self) \<and> count_client (the_vectorstore self) c \<le> 1000"
  then show "delete_client_documents (snd (delete_client_documents self c)) c
        = delete_client_documents self c"
    by (simp add: delete_client_documents_twice)
qed

lemma delete_first:
  "vs_delete (the_vectorstore two_tenants) [PStr ''uuid-i''] = Inr deleted_once"
  by (simp add: vs_delete_def deleted_once_def two_tenants_available two_tenants_entries)

lemma delete_missing:
  "\<forall>key \<in> fst ` set (entries (the_vectorstore two_tenants)). PStr key \<notin> set [PStr ''missing'']"
  by (simp add: two_tenants_entries)

theorem delete_is_idempotent_witness:
  "vs_delete (the_vectorstore two_tenants) [PStr ''uuid-i''] = Inr deleted_once \<and>
   vs_delete deleted_once [PStr ''uuid-i''] = Inr deleted_once \<and>
   length (entries deleted_once) = 1 \<and>
   available (the_vectorstore two_tenants) \<and>
   vs_delete (the_vectorstore two_tenants) [PStr ''missing''] = Inr (the_vectorstore two_tenants) \<and>
   count_client (the_vectorstore two_tenants) 1 \<le> 1000 \<and>
   fst (delete_client_documents two_tenants 1) \<and>
   delete_client_documents (snd (delete_client_documents two_tenants 1)) 1
     = delete_client_documents two_tenants 1"
proof -
  note a = delete_is_idempotent
             [of "the_vectorstore two_tenants" "[PStr ''uuid-i'']" two_tenants 1]
  note b = delete_is_idempotent
             [of "the_vectorstore two_tenants" "[PStr ''missing'']" two_tenants 1]
  from a delete_first have 1: "vs_delete deleted_once [PStr ''uuid-i''] = Inr deleted_once"
    by blast
  from b delete_missing two_tenants_available
  have 2: "vs_delete (the_vectorstore two_tenants) [PStr ''missing''] = Inr (the_vectorstore two_tenants)"
    by blast
  have le: "count_client (the_vectorstore two_tenants) 1 \<le> 1000"
    by (simp add: two_tenants_count)
  with a two_tenants_available
  have 3: "fst (delete_client_documents two_tenants 1) \<and>
           delete_client_documents (snd (delete_client_documents two_tenants 1)) 1
             = delete_client_documents two_tenants 1"
    by blast
  have 4: "length (entries deleted_once) = 1"
    by (simp add: deleted_once_def two_tenants_entries)
  from 1 2 3 4 le delete_first two_tenants_available show ?thesis by blast
qed

section \<open>The cap of the enumeration\<close>

lemma found_documents_length: "length (found_documents vs c) \<le> 1000"
  by (simp add: found_documents_def)

lemma found_doc_ids_length: "length (found_doc_ids vs c) \<le> 1000"
proof -
  have "length (found_doc_ids vs c) \<le> length (found_documents vs c)"
    by (simp add: found_doc_ids_def)
  with found_documents_length[of vs c] show ?thesis by simp
qed

lemma removed_bounded:
  assumes "distinct (map fst es)"
  shows "length (filter (\<lambda>(key, d). PStr key \<in> set ids) es) \<le> length ids"
proof -
  let ?rm = "filter (\<lambda>(key, d). PStr key \<in> set ids) es"
  have "distinct (map fst ?rm)" using assms by (simp add: distinct_map_filter)
  then have "distinct (map (\<lambda>e. PStr (fst e)) ?rm)"
    by (simp add: distinct_map inj_on_def)
  then have "length ?rm = card (set (map (\<lambda>e. PStr (fst e)) ?rm))"
    by (metis distinct_card length_map)
  also have "\<dots> \<le> card (set ids)"
    by (rule card_mono) auto
  also have "\<dots> \<le> length ids" by (rule card_length)
  finally show ?thesis .
qed

lemma without_ids_length:
  assumes "distinct (map fst es)"
  shows "length es \<le> length (without_ids ids es) + length ids"
proof -
  have "length es = length (filter (\<lambda>(key, d). PStr key \<in> set ids) es)
                    + length (filter (\<lambda>e. \<not> (case e of (key, d) \<Rightarrow> PStr key \<in> set ids)) es)"
    by (rule sum_length_filter_compl[symmetric])
  moreover have "filter (\<lambda>e. \<not> (case e of (key, d) \<Rightarrow> PStr key \<in> set ids)) es = without_ids ids es"
    unfolding without_ids_def by (rule filter_cong) auto
  ultimately show ?thesis using removed_bounded[OF assms, of ids] by simp
qed

lemma without_ids_count:
  "length (filter P (map snd es))
     \<le> length (filter P (map snd (without_ids ids es)))
        + length (filter (\<lambda>(key, d). PStr key \<in> set ids) es)"
  by (induction es) (auto simp: without_ids_def)

lemma delete_client_documents_count:
  assumes av: "available (the_vectorstore self)"
      and di: "distinct (map fst (entries (the_vectorstore self)))"
  shows "length (entries (the_vectorstore self))
           \<le> length (entries (the_vectorstore (snd (delete_client_documents self c)))) + 1000"
    and "count_client (the_vectorstore self) c
           \<le> count_client (the_vectorstore (snd (delete_client_documents self c))) c + 1000"
proof -
  let ?vs = "the_vectorstore self"
  let ?ids = "found_doc_ids ?vs c"
  have after: "entries (the_vectorstore (snd (delete_client_documents self c)))
                 = without_ids ?ids (entries ?vs)"
    by (simp add: delete_client_documents_available[OF av])
  from without_ids_length[OF di, of ?ids] found_doc_ids_length[of ?vs c]
  show "length (entries ?vs)
           \<le> length (entries (the_vectorstore (snd (delete_client_documents self c)))) + 1000"
    by (simp add: after)
  from without_ids_count[of "matches_filter c" "entries ?vs" ?ids]
       removed_bounded[OF di, of ?ids] found_doc_ids_length[of ?vs c]
  show "count_client ?vs c
           \<le> count_client (the_vectorstore (snd (delete_client_documents self c))) c + 1000"
    by (simp add: after count_client_def)
qed

lemma append_chunk_chunks:
  "map_of source ''chunks'' = Some (PList cs) \<Longrightarrow>
     map_of (append_chunk ch source) ''chunks'' = Some (PList (cs @ [ch]))"
  by (induction source) (auto split: if_splits)

lemma append_chunk_count:
  "has_chunks source \<Longrightarrow>
     has_chunks (append_chunk ch source) \<and>
     length (chunks_of (append_chunk ch source)) = Suc (length (chunks_of source))"
  by (auto simp: has_chunks_def chunks_of_def append_chunk_chunks)

lemma new_source_chunks: "has_chunks (new_source sid doc)" "chunks_of (new_source sid doc) = []"
  by (simp_all add: has_chunks_def chunks_of_def new_source_def)

lemma append_to_one:
  assumes "distinct (map fst sources)" and "sid \<in> fst ` set sources"
      and "\<forall>g \<in> snd ` set sources. has_chunks g"
  shows "total_chunks (map snd (map (\<lambda>(s, g). if s = sid then (s, append_chunk ch g) else (s, g)) sources))
           = Suc (total_chunks (map snd sources))"
  using assms
proof (induction sources)
  case Nil
  then show ?case by simp
next
  case (Cons p sources)
  obtain s g where p: "p = (s, g)" by (cases p)
  show ?case
  proof (cases "s = sid")
    case True
    with Cons.prems p have "sid \<notin> fst ` set sources" by auto
    then have "map (\<lambda>(s, g). if s = sid then (s, append_chunk ch g) else (s, g)) sources = sources"
      by (induction sources) auto
    moreover from Cons.prems p have "has_chunks g" by simp
    ultimately show ?thesis using True p
      by (simp add: total_chunks_def append_chunk_count)
  next
    case False
    with Cons.prems p have "sid \<in> fst ` set sources" by auto
    with Cons.IH Cons.prems show ?thesis using False p
      by (simp add: total_chunks_def)
  qed
qed

lemma append_keeps:
  "map fst (map (\<lambda>(s, g). if s = sid then (s, append_chunk ch g) else (s, g)) sources) = map fst sources"
  by (induction sources) auto

lemma append_has_chunks:
  "\<forall>g \<in> snd ` set sources. has_chunks g \<Longrightarrow>
   \<forall>g \<in> snd ` set (map (\<lambda>(s, g). if s = sid then (s, append_chunk ch g) else (s, g)) sources).
      has_chunks g"
  by (induction sources) (auto simp: append_chunk_count)

lemma group_by_source_total:
  assumes "distinct (map fst sources)" and "\<forall>g \<in> snd ` set sources. has_chunks g"
  shows "total_chunks (map snd (group_by_source sources results))
           = total_chunks (map snd sources) + length results"
  using assms
proof (induction results arbitrary: sources)
  case Nil
  then show ?case by simp
next
  case (Cons doc results)
  define sid where "sid = dict_get (metadata doc) ''source_id'' (PStr ''unknown'')"
  define sources1 where
    "sources1 = (if sid \<notin> fst ` set sources then sources @ [(sid, new_source sid doc)] else sources)"
  define sources2 where
    "sources2 = map (\<lambda>(s, g). if s = sid then (s, append_chunk (chunk_entry doc) g) else (s, g)) sources1"
  have step: "group_by_source sources (doc # results) = group_by_source sources2 results"
    by (simp add: Let_def sources2_def sources1_def sid_def)
  have d1: "distinct (map fst sources1)" using Cons.prems(1) by (auto simp: sources1_def)
  have h1: "\<forall>g \<in> snd ` set sources1. has_chunks g"
    using Cons.prems(2) by (auto simp: sources1_def new_source_chunks)
  have in1: "sid \<in> fst ` set sources1" by (auto simp: sources1_def)
  have t1: "total_chunks (map snd sources1) = total_chunks (map snd sources)"
    by (simp add: sources1_def total_chunks_def new_source_chunks)
  have d2: "distinct (map fst sources2)" using d1 unfolding sources2_def append_keeps .
  have h2: "\<forall>g \<in> snd ` set sources2. has_chunks g"
    unfolding sources2_def using h1 by (rule append_has_chunks)
  have t2: "total_chunks (map snd sources2) = Suc (total_chunks (map snd sources))"
    unfolding sources2_def using append_to_one[OF d1 in1 h1] t1 by simp
  show ?case unfolding step using Cons.IH[OF d2 h2] t2 by simp
qed

lemma get_client_documents_total:
  "total_chunks (get_client_documents self c) \<le> 1000"
proof (cases "available (the_vectorstore self)")
  case True
  have "total_chunks (map snd (group_by_source [] (found_documents (the_vectorstore self) c)))
          = length (found_documents (the_vectorstore self) c)"
    using group_by_source_total[of "[]" "found_documents (the_vectorstore self) c"]
    by (simp add: total_chunks_def)
  with found_documents_length[of "the_vectorstore self" c] show ?thesis
    by (simp add: get_client_documents_def enumeration_search[OF True])
next
  case False
  then show ?thesis
    by (simp add: get_client_documents_def similarity_search_def total_chunks_def)
qed

text \<open>
  C9. In a reachable store with unique keys, one call of \<^verbatim>\<open>get_client_documents\<close> returns at
  most 1000 chunks, and one call of \<^verbatim>\<open>delete_client_documents\<close> returns \<^verbatim>\<open>True\<close> and removes at
  most 1000 entries; when the client has more than 1000 fragments, some of them are still
  in the store afterwards.
\<close>

theorem enumeration_is_capped:
  assumes "available (the_vectorstore self)"
      and "distinct (map fst (entries (the_vectorstore self)))"
  shows "total_chunks (get_client_documents self c) \<le> 1000 \<and>
         fst (delete_client_documents self c) \<and>
         length (entries (the_vectorstore self))
           \<le> length (entries (the_vectorstore (snd (delete_client_documents self c)))) + 1000 \<and>
         (1000 < count_client (the_vectorstore self) c \<longrightarrow>
            0 < count_client (the_vectorstore (snd (delete_client_documents self c))) c)"
  using get_client_documents_total[of self c]
        delete_client_documents_count[OF assms, of c]
        delete_client_documents_available[OF assms(1), of c]
  by auto

lemma split_alpha: "split_text 1000 200 ''alpha'' = [''alpha'']"
  by code_simp

lemma build_replicate:
  assumes "split t = [t]"
  shows "\<exists>built. build_documents split c u (replicate n [(''content'', PStr t), (''title'', ti),
               (''source_id'', si), (''source_type'', st)]) = (Inr built, u + n)
           \<and> length built = n"
proof (induction n arbitrary: u)
  case 0
  then show ?case by simp
next
  case (Suc n)
  from Suc[of "Suc u"] obtain built where
    "build_documents split c (Suc u) (replicate n [(''content'', PStr t), (''title'', ti),
               (''source_id'', si), (''source_type'', st)]) = (Inr built, Suc u + n)"
    and "length built = n" by blast
  then show ?case using assms by (simp add: Let_def)
qed

lemma add_documents_stores:
  assumes "available (the_vectorstore self)" and "embed_fails_at (the_vectorstore self) = None"
      and "build_documents (text_splitter self) c (uuid_state self) documents = (Inr built, u)"
  shows "available (the_vectorstore (snd (add_documents self documents c)))"
    and "entries (the_vectorstore (snd (add_documents self documents c)))
           = entries (the_vectorstore self) @ zip (map uuid_str [u ..< u + length built]) (map snd built)"
  using assms
  by (auto simp: add_documents_def vs_add_documents_def Let_def)

lemma big_service_facts:
  "available (the_vectorstore big_service)"
  "distinct (map fst (entries (the_vectorstore big_service)))"
  "count_client (the_vectorstore big_service) 1 = 1001"
proof -
  have av: "available (the_vectorstore example_service)"
    and nf: "embed_fails_at (the_vectorstore example_service) = None"
    and em: "entries (the_vectorstore example_service) = []"
    and sp: "text_splitter example_service = split_text 1000 200"
    and us: "uuid_state example_service = 0"
    by (simp_all add: example_service_def RAGService_init_def example_store_def)
  from build_replicate[where split = "split_text 1000 200" and t = "''alpha''" and c = 1
                         and u = 0 and ti = "PStr ''note''" and si = "PInt 7"
                         and st = "PStr ''manual''" and n = 1001, OF split_alpha]
  obtain built where
    b: "build_documents (text_splitter example_service) 1 (uuid_state example_service) many_docs
          = (Inr built, 1001)" and len: "length built = 1001"
    by (auto simp: many_docs_def example_doc_def sp us)
  note st = add_documents_stores[OF av nf b]
  show "available (the_vectorstore big_service)" using st(1) by (simp add: big_service_def)
  have e: "entries (the_vectorstore big_service)
             = zip (map uuid_str [1001 ..< 1001 + length built]) (map snd built)"
    using st(2) by (simp add: big_service_def em)
  have inj: "inj_on uuid_str A" for A by (rule inj_onI) (simp add: uuid_str_inj)
  show "distinct (map fst (entries (the_vectorstore big_service)))"
    by (simp add: e distinct_map inj)
  have "map snd (entries (the_vectorstore big_service)) = map snd built"
    by (simp add: e)
  then show "count_client (the_vectorstore big_service) 1 = 1001"
    using build_documents_matches[OF b] len by (simp add: count_client_def)
qed

theorem enumeration_is_capped_witness:
  "available (the_vectorstore big_service) \<and>
   distinct (map fst (entries (the_vectorstore big_service))) \<and>
   count_client (the_vectorstore big_service) 1 = 1001 \<and>
   total_chunks (get_client_documents big_service 1) \<le> 1000 \<and>
   fst (delete_client_documents big_service 1) \<and>
   0 < count_client (the_vectorstore (snd (delete_client_documents big_service 1))) 1"
  using enumeration_is_capped [OF big_service_facts(1) big_service_facts(2), of 1]
        big_service_facts
  by simp

section \<open>Reindexing\<close>

lemma append_chunk_other: "k \<noteq> ''chunks'' \<Longrightarrow> map_of (append_chunk ch source) k = map_of source k"
  by (induction source) auto

lemma group_by_source_no_content:
  assumes "\<forall>g \<in> snd ` set sources. map_of g ''content'' = None"
  shows "\<forall>g \<in> snd ` set (group_by_source sources results). map_of g ''content'' = None"
  using assms
proof (induction results arbitrary: sources)
  case Nil
  then show ?case by simp
next
  case (Cons doc results)
  define sid where "sid = dict_get (metadata doc) ''source_id'' (PStr ''unknown'')"
  define sources1 where
    "sources1 = (if sid \<notin> fst ` set sources then sources @ [(sid, new_source sid doc)] else sources)"
  define sources2 where
    "sources2 = map (\<lambda>(s, g). if s = sid then (s, append_chunk (chunk_entry doc) g) else (s, g)) sources1"
  have step: "group_by_source sources (doc # results) = group_by_source sources2 results"
    by (simp add: Let_def sources2_def sources1_def sid_def)
  have "\<forall>g \<in> snd ` set sources1. map_of g ''content'' = None"
    using Cons.prems by (auto simp: sources1_def new_source_def)
  then have "\<forall>g \<in> snd ` set sources2. map_of g ''content'' = None"
    by (auto simp: sources2_def append_chunk_other)
  from Cons.IH[OF this] show ?case unfolding step .
qed

lemma get_client_documents_no_content:
  "doc \<in> set (get_client_documents self c) \<Longrightarrow> map_of doc ''content'' = None"
proof -
  assume a: "doc \<in> set (get_client_documents self c)"
  show ?thesis
  proof (cases "similarity_search (the_vectorstore self) '''' 1000 c")
    case (Inl e)
    with a show ?thesis by (simp add: get_client_documents_def)
  next
    case (Inr results)
    with a have "doc \<in> snd ` set (group_by_source [] results)"
      by (simp add: get_client_documents_def)
    with group_by_source_no_content[of "[]" results] show ?thesis by auto
  qed
qed

lemma add_empty_document:
  assumes "text_splitter self '''' = []" and "map_of doc ''content'' = None"
  shows "add_documents self [reindex_doc_data doc] c = (Inr [], self)"
  using assms by (simp add: add_documents_def reindex_doc_data_def dict_get_def Let_def)

lemma reindex_loop_no_content:
  assumes "text_splitter self '''' = []" and "\<forall>doc \<in> set documents. map_of doc ''content'' = None"
  shows "reindex_loop self c documents = (None, self)"
  using assms by (induction documents) (simp_all add: add_empty_document)

text \<open>
  C6. The source dictionaries that \<^verbatim>\<open>get_client_documents\<close> returns have no \<^verbatim>\<open>content\<close> key, so
  \<^verbatim>\<open>reindex_documents_task\<close> re-adds the empty text for every source. With a splitter that
  yields no chunk for the empty text, the task inserts nothing: it reports \<^verbatim>\<open>completed\<close>
  and leaves the service in the state that \<^verbatim>\<open>delete_client_documents\<close> alone produces. The
  count of the client is therefore never the count of the re-chunked text.
\<close>

theorem reindex_adds_nothing:
  assumes "text_splitter self '''' = []" and "c \<noteq> 0"
  shows "reindex_documents_task self (Some c) =
           ([(''status'', PStr ''completed''), (''client_id'', PInt c),
             (''documents_reindexed'', PInt (int (length (get_client_documents self c))))],
            snd (delete_client_documents self c))"
proof -
  have "text_splitter (snd (delete_client_documents self c)) = text_splitter self"
    by (auto simp: delete_client_documents_def Let_def split: sum.splits)
  with assms(1) have "text_splitter (snd (delete_client_documents self c)) '''' = []" by simp
  then have "reindex_loop (snd (delete_client_documents self c)) c (get_client_documents self c)
               = (None, snd (delete_client_documents self c))"
    by (rule reindex_loop_no_content) (simp add: get_client_documents_no_content)
  then show ?thesis using assms(2) by (simp add: reindex_documents_task_def Let_def)
qed

lemma split_empty: "split_text 1000 200 '''' = []"
  by code_simp

lemma three_fragments_splitter: "text_splitter three_fragments '''' = []"
proof -
  have "text_splitter three_fragments = text_splitter example_service"
    unfolding three_fragments_def add_documents_def
    by (auto simp: Let_def split: prod.splits sum.splits option.splits)
  then show ?thesis by (simp add: example_service_def RAGService_init_def split_empty)
qed

lemma three_fragments_facts:
  "count_client (the_vectorstore three_fragments) 1 = 3"
  "length (get_client_documents three_fragments 1) = 1"
  "total_chunks (get_client_documents three_fragments 1) = 3"
  "fst (delete_client_documents three_fragments 1)"
  "count_client (the_vectorstore (snd (delete_client_documents three_fragments 1))) 1 = 3"
  "map (\<lambda>hit. map_of hit ''content'')
     (search_documents (snd (delete_client_documents three_fragments 1)) ''alpha'' 1 5)
     = [Some (PStr ''beta''), Some (PStr ''alpha''), Some (PStr ''gamma'')]"
  by code_simp+

theorem reindex_adds_nothing_witness:
  "total_chunks (get_client_documents three_fragments 1) = 3 \<and>
   count_client (the_vectorstore three_fragments) 1 = 3 \<and>
   fst (reindex_documents_task three_fragments (Some 1)) =
     [(''status'', PStr ''completed''), (''client_id'', PInt 1), (''documents_reindexed'', PInt 1)] \<and>
   count_client (the_vectorstore (snd (reindex_documents_task three_fragments (Some 1)))) 1 = 3 \<and>
   map (\<lambda>hit. map_of hit ''content'')
     (search_documents (snd (reindex_documents_task three_fragments (Some 1))) ''alpha'' 1 5)
     = [Some (PStr ''beta''), Some (PStr ''alpha''), Some (PStr ''gamma'')]"
proof -
  have "(1::int) \<noteq> 0" by simp
  from reindex_adds_nothing [OF three_fragments_splitter this]
  show ?thesis by (simp add: three_fragments_facts)
qed

section \<open>Chunking\<close>






















end
